theory Spec2Isabelle
  imports Main "HOL-Library.AList"
begin

section \<open>Python values used by ultrasequence/models.py\<close>

text \<open>
  Strings are lists of 8-bit characters; a digit is one of the ten ASCII digits.
  Integers are unbounded (\<open>int\<close>), lengths are \<open>nat\<close>.  Every exception the modelled
  code can raise is a constructor of \<open>error\<close>, named after the Python exception class
  and the place it is raised.
\<close>

datatype error =
    ValueError_not_member
  | ValueError_cannot_sequence
  | IndexError_already_in_sequence
  | ValueError_empty_min_max
  | KeyError
  | AttributeError_readonly
  | IndexError_pop_from_empty_list

definition isdigit :: "char \<Rightarrow> bool" where
  "isdigit c = (c \<in> set ''0123456789'')"

definition digit_char :: "nat \<Rightarrow> char" where
  "digit_char n = ''0123456789'' ! n"

text \<open>\<open>str(n)\<close> for an integer: decimal digits, a minus sign for a negative number.\<close>

fun str_nat :: "nat \<Rightarrow> string" where
  "str_nat n = (if n < 10 then [digit_char n] else str_nat (n div 10) @ [digit_char (n mod 10)])"

definition str_int :: "int \<Rightarrow> string" where
  "str_int i = (if i < 0 then CHR ''-'' # str_nat (nat (- i)) else str_nat (nat i))"

text \<open>\<open>int(s)\<close> for a string of decimal digits.\<close>

definition digit_val :: "char \<Rightarrow> int" where
  "digit_val c = of_char c - 48"

definition int_of_digits :: "string \<Rightarrow> int" where
  "int_of_digits ds = foldl (\<lambda>acc c. 10 * acc + digit_val c) 0 ds"

text \<open>\<open>sep.join(xs)\<close> and \<open>s.split(c)\<close> for a one-character separator.\<close>

fun join :: "string \<Rightarrow> string list \<Rightarrow> string" where
  "join sep [] = []"
| "join sep [x] = x"
| "join sep (x # y # ys) = x @ sep @ join sep (y # ys)"

fun split_chr :: "char \<Rightarrow> string \<Rightarrow> string list" where
  "split_chr c [] = [[]]"
| "split_chr c (x # xs) =
     (if x = c then [] # split_chr c xs
      else (case split_chr c xs of [] \<Rightarrow> [[x]] | w # ws \<Rightarrow> (x # w) # ws))"

text \<open>\<open>min\<close> and \<open>max\<close> of an iterable raise ValueError on an empty one.\<close>

fun py_min :: "int list \<Rightarrow> error + int" where
  "py_min [] = Inl ValueError_empty_min_max"
| "py_min (x # xs) = Inr (fold min xs x)"

fun py_max :: "int list \<Rightarrow> error + int" where
  "py_max [] = Inl ValueError_empty_min_max"
| "py_max (x # xs) = Inr (fold max xs x)"

text \<open>
  \<open>os.path.split\<close> and \<open>os.path.join\<close> of the POSIX flavour of Python's standard
  library: the split is after the last slash, and trailing slashes are stripped from a
  directory part that is not made of slashes only.
\<close>

definition os_path_split :: "string \<Rightarrow> string \<times> string" where
  "os_path_split p =
     (let tl_part = rev (takeWhile (\<lambda>c. c \<noteq> CHR ''/'') (rev p));
          hd_part = rev (dropWhile (\<lambda>c. c \<noteq> CHR ''/'') (rev p))
      in (if hd_part \<noteq> [] \<and> \<not> list_all (\<lambda>c. c = CHR ''/'') hd_part
          then rev (dropWhile (\<lambda>c. c = CHR ''/'') (rev hd_part))
          else hd_part,
          tl_part))"

definition os_path_join :: "string \<Rightarrow> string \<Rightarrow> string" where
  "os_path_join a b =
     (if b \<noteq> [] \<and> hd b = CHR ''/'' then b
      else if a = [] \<or> last a = CHR ''/'' then a @ b
      else a @ ''/'' @ b)"

section \<open>Module-level functions\<close>

subsection \<open>extract_frame\<close>

text \<open>
  Modelled from the spec: \<open>cfg.frame_extract_re\<close> and the group indices
  \<open>cfg.head_group\<close>, \<open>cfg.frame_group\<close> and \<open>cfg.tail_group\<close> are read by
  \<open>extract_frame\<close> but are not defined in config.py.  Following section 4.1 of the
  specification, the match locates the last maximal run of digits of the name: the
  frame group is that run, the tail group is everything after it, and the head group
  is everything before it, unset (\<open>None\<close>) when nothing precedes the run.  A name
  without a digit does not match.
\<close>

definition frame_extract_re_match :: "string \<Rightarrow> (string option \<times> string \<times> string) option" where
  "frame_extract_re_match name =
     (let r = rev name;
          tail_r = takeWhile (\<lambda>c. \<not> isdigit c) r;
          rest = dropWhile (\<lambda>c. \<not> isdigit c) r;
          frame_r = takeWhile isdigit rest;
          head_r = dropWhile isdigit rest
      in if rest = [] then None
         else Some (if head_r = [] then None else Some (rev head_r), rev frame_r, rev tail_r))"

definition extract_frame :: "string \<Rightarrow> string \<times> string \<times> string" where
  "extract_frame name =
     (case frame_extract_re_match name of
        Some (head, frame, tail) \<Rightarrow>
          ((case head of None \<Rightarrow> [] | Some h \<Rightarrow> h), frame, tail)
      | None \<Rightarrow> (name, [], []))"

subsection \<open>split_extension\<close>

text \<open>
  \<open>split\<close> always returns at least one part, so the first case below is never taken;
  with one part \<open>parts[0]\<close> is returned, otherwise the last part is popped off.
\<close>

definition split_extension :: "string \<Rightarrow> string \<times> string" where
  "split_extension filename =
     (case split_chr CHR ''.'' filename of
        [] \<Rightarrow> ([], [])
      | [p] \<Rightarrow> (p, [])
      | p # q # ps \<Rightarrow> (join ''.'' (butlast (p # q # ps)), last (p # q # ps)))"

subsection \<open>frame_ranges_to_string\<close>

text \<open>
  The argument is an iterable of one of three kinds: a list object, which \<open>pop(0)\<close>
  mutates in place; another re-iterable sequence (a tuple, a range, a sorted set), which
  line 59 copies into a fresh list before the pop; or a one-shot iterator such as a
  generator, given by the items it has yet to yield.  A one-shot iterator is always
  true, so line 56 lets it through even when it is empty; \<open>list()\<close> at line 59
  takes all its items and leaves it exhausted, and \<open>pop(0)\<close> on the empty copy of
  an empty iterator raises IndexError.  The function returns the string or the exception
  raised, together with the caller's argument as it is after the call.

  The first loop keeps \<open>ranges\<close> and the index \<open>range_i\<close> of its last element; the
  index is always in range and no element of \<open>ranges\<close> is empty (lemma
  \<open>range_loop_inv\<close> below), so \<open>ranges ! range_i\<close> and \<open>last\<close> read what the
  Python reads.
\<close>

datatype frame_arg = PyList "int list" | PySeq "int list" | PyIter "int list"

fun items :: "frame_arg \<Rightarrow> int list" where
  "items (PyList xs) = xs"
| "items (PySeq xs) = xs"
| "items (PyIter xs) = xs"

text \<open>\<open>not frame_list\<close>, and the caller's argument once line 59 has run.\<close>

fun falsy :: "frame_arg \<Rightarrow> bool" where
  "falsy (PyList xs) = (xs = [])"
| "falsy (PySeq xs) = (xs = [])"
| "falsy (PyIter xs) = False"

fun after_copy :: "frame_arg \<Rightarrow> frame_arg" where
  "after_copy (PyList xs) = PyList xs"
| "after_copy (PySeq xs) = PySeq xs"
| "after_copy (PyIter xs) = PyIter []"

definition range_step :: "int \<Rightarrow> int list list \<times> nat \<Rightarrow> int list list \<times> nat" where
  "range_step x st =
     (case st of (ranges, range_i) \<Rightarrow>
        if x - 1 = last (ranges ! range_i)
        then (ranges[range_i := ranges ! range_i @ [x]], range_i)
        else (ranges @ [[x]], range_i + 1))"

definition render_range :: "int list \<Rightarrow> string" where
  "render_range x =
     (if length x > 1 then join ''-'' [str_int (x ! 0), str_int (last x)]
      else str_int (x ! 0))"

definition frame_ranges_to_string :: "frame_arg \<Rightarrow> (error + string) \<times> frame_arg" where
  "frame_ranges_to_string arg =
     (if falsy arg then (Inr ''[]'', arg)
      else (case items arg of
              [] \<Rightarrow> (Inl IndexError_pop_from_empty_list, after_copy arg)
            | first # frame_list \<Rightarrow>
                (let ranges = fst (fold range_step frame_list ([[first]], 0));
                     list_of_ranges = map render_range ranges;
                     complete_string = ''['' @ join '', '' list_of_ranges @ '']''
                 in (Inr complete_string,
                     (case arg of PyList _ \<Rightarrow> PyList frame_list
                      | _ \<Rightarrow> after_copy arg)))))"

text \<open>
  The specification's reading of the same function (section 4.2): consecutive integers
  collapse into an inclusive pair, an isolated integer is a pair of itself, a pair with
  two different ends renders as \<open>start-end\<close>, the pieces are joined by a comma and a
  space inside square brackets.
\<close>

fun runs_from :: "int \<Rightarrow> int \<Rightarrow> int list \<Rightarrow> (int \<times> int) list" where
  "runs_from a b [] = [(a, b)]"
| "runs_from a b (x # xs) =
     (if x = b + 1 then runs_from a x xs else (a, b) # runs_from x x xs)"

fun maximal_runs :: "int list \<Rightarrow> (int \<times> int) list" where
  "maximal_runs [] = []"
| "maximal_runs (x # xs) = runs_from x x xs"

definition render_run :: "int \<times> int \<Rightarrow> string" where
  "render_run r = (if fst r < snd r then str_int (fst r) @ ''-'' @ str_int (snd r)
                   else str_int (fst r))"

definition spec_range_string :: "int list \<Rightarrow> string" where
  "spec_range_string xs = ''['' @ join '', '' (map render_run (maximal_runs xs)) @ '']''"

fun no_adjacent_runs :: "(int \<times> int) list \<Rightarrow> bool" where
  "no_adjacent_runs [] = True"
| "no_adjacent_runs [r] = True"
| "no_adjacent_runs (r # r' # rs) = (fst r' \<noteq> snd r + 1 \<and> no_adjacent_runs (r' # rs))"

section \<open>Configuration\<close>

text \<open>
  The two fields of the process-wide \<open>cfg\<close> object that models.py reads or writes.
\<close>

record cfg =
  ignore_padding :: bool
  get_stats :: bool

section \<open>Stat and File\<close>

text \<open>
  A stat field is \<open>None\<close> or a number.  The three timestamps are floats in an
  \<open>os.stat_result\<close>; the accessors only test them for truth and hand them on, and
  the docstring of \<open>Stat\<close> asks for int-like items, so they are integers here.
  \<open>os.stat\<close> is a function from paths to stat results, \<open>None\<close> standing for
  FileNotFoundError.
\<close>

record Stat =
  st_size :: "int option"
  st_ino :: "int option"
  st_nlink :: "int option"
  st_dev :: "int option"
  st_mode :: "int option"
  st_uid :: "int option"
  st_gid :: "int option"
  st_ctime :: "int option"
  st_mtime :: "int option"
  st_atime :: "int option"

definition Stat_init ::
  "int option \<Rightarrow> int option \<Rightarrow> int option \<Rightarrow> int option \<Rightarrow> int option \<Rightarrow>
   int option \<Rightarrow> int option \<Rightarrow> int option \<Rightarrow> int option \<Rightarrow> int option \<Rightarrow> Stat" where
  "Stat_init size' inode ctime mtime atime mode dev nlink uid gid =
     \<lparr> st_size = size', st_ino = inode, st_nlink = nlink, st_dev = dev, st_mode = mode,
       st_uid = uid, st_gid = gid, st_ctime = ctime, st_mtime = mtime, st_atime = atime \<rparr>"

text \<open>
  The \<open>stats\<close> argument of \<open>File\<close>: absent, an \<open>os.stat_result\<close>, a dict for
  \<open>Stat(**stats)\<close> or a list or tuple for \<open>Stat(*stats)\<close>.  A keyword that is not
  a parameter of \<open>Stat.__init__\<close>, or more than ten positional values, is a TypeError,
  which line 165 turns into \<open>Stat()\<close>.
\<close>

datatype stats_arg =
    StatsNone
  | StatsResult Stat
  | StatsDict "(string \<times> int option) list"
  | StatsSeq "int option list"

definition stat_params :: "string list" where
  "stat_params = [''size'', ''inode'', ''ctime'', ''mtime'', ''atime'', ''mode'', ''dev'',
                  ''nlink'', ''uid'', ''gid'']"

definition kw :: "(string \<times> int option) list \<Rightarrow> string \<Rightarrow> int option" where
  "kw d k = (case map_of d k of None \<Rightarrow> None | Some v \<Rightarrow> v)"

definition pos :: "int option list \<Rightarrow> nat \<Rightarrow> int option" where
  "pos xs i = (if i < length xs then xs ! i else None)"

definition Stat_of_arg :: "stats_arg \<Rightarrow> Stat" where
  "Stat_of_arg stats =
     (case stats of
        StatsResult st \<Rightarrow> st
      | StatsDict d \<Rightarrow>
          (if list_all (\<lambda>k. k \<in> set stat_params) (map fst d)
           then Stat_init (kw d ''size'') (kw d ''inode'') (kw d ''ctime'') (kw d ''mtime'')
                  (kw d ''atime'') (kw d ''mode'') (kw d ''dev'') (kw d ''nlink'')
                  (kw d ''uid'') (kw d ''gid'')
           else Stat_init None None None None None None None None None None)
      | StatsSeq xs \<Rightarrow>
          (if length xs \<le> 10
           then Stat_init (pos xs 0) (pos xs 1) (pos xs 2) (pos xs 3) (pos xs 4) (pos xs 5)
                  (pos xs 6) (pos xs 7) (pos xs 8) (pos xs 9)
           else Stat_init None None None None None None None None None None)
      | StatsNone \<Rightarrow> Stat_init None None None None None None None None None None)"

record File =
  abspath :: string
  path :: string
  name :: string
  base :: string
  ext :: string
  namehead :: string
  framenum :: string
  head :: string
  tail :: string
  padding :: nat
  stat :: Stat
  stat_is_os_result :: bool

text \<open>
  \<open>File.__init__\<close>.  Its write to \<open>cfg.get_stats\<close> (line 136) is the separate
  function \<open>File_init_cfg\<close>; the constructed object is \<open>File_init\<close>.  The field
  \<open>stat_is_os_result\<close> records that \<open>self.stat\<close> is an \<open>os.stat_result\<close>
  (line 158), whose attributes cannot be assigned, and not a \<open>Stat\<close>.
\<close>

definition File_init_cfg :: "cfg \<Rightarrow> bool option \<Rightarrow> cfg" where
  "File_init_cfg c get_stats_arg =
     (case get_stats_arg of None \<Rightarrow> c | Some b \<Rightarrow> c\<lparr>get_stats := b\<rparr>)"

definition File_init ::
  "(string \<Rightarrow> Stat option) \<Rightarrow> string \<Rightarrow> stats_arg \<Rightarrow> bool option \<Rightarrow> File" where
  "File_init os_stat filepath stats get_stats_arg =
     (let (path', name') = os_path_split filepath;
          (base', ext') = split_extension name';
          (namehead', framenum', tail') = extract_frame base';
          stats' = (if get_stats_arg = Some True
                    then (case os_stat filepath of Some r \<Rightarrow> StatsResult r | None \<Rightarrow> stats)
                    else stats)
      in \<lparr> abspath = filepath, path = path', name = name', base = base', ext = ext',
           namehead = namehead', framenum = framenum',
           head = os_path_join path' namehead',
           tail = (if ext' = [] then [] else join ''.'' [tail', ext']),
           padding = length framenum',
           stat = Stat_of_arg stats',
           stat_is_os_result = (case stats' of StatsResult _ \<Rightarrow> True | _ \<Rightarrow> False) \<rparr>)"

text \<open>
  The \<open>frame\<close> property: \<open>int(self._framenum)\<close>, \<open>None\<close> on ValueError.  The
  constructor only ever stores a run of digits or the empty string there.
\<close>

definition frame :: "File \<Rightarrow> int option" where
  "frame f = (if framenum f \<noteq> [] \<and> list_all isdigit (framenum f)
              then Some (int_of_digits (framenum f)) else None)"

text \<open>
  The \<open>size\<close> property (lines 232 to 241).  \<open>not self.stat.st_size\<close> holds for
  \<open>None\<close> and for zero.  The assignment of line 236 raises AttributeError when
  \<open>self.stat\<close> is an \<open>os.stat_result\<close>; only FileNotFoundError is caught.  The
  result is the value returned or the exception raised, and the File after the call.
\<close>

definition File_size ::
  "(string \<Rightarrow> Stat option) \<Rightarrow> File \<Rightarrow> (error + int option) \<times> File" where
  "File_size os_stat f =
     (if st_size (stat f) = None \<or> st_size (stat f) = Some 0
      then (case os_stat (abspath f) of
              Some r \<Rightarrow>
                if stat_is_os_result f then (Inl AttributeError_readonly, f)
                else (Inr (st_size r), f\<lparr>stat := (stat f)\<lparr>st_size := st_size r\<rparr>\<rparr>)
            | None \<Rightarrow> (Inr None, f))
      else (Inr (st_size (stat f)), f))"

definition get_seq_key :: "cfg \<Rightarrow> File \<Rightarrow> bool option \<Rightarrow> string" where
  "get_seq_key c f ignore_padding_arg =
     (let ip = (case ignore_padding_arg of None \<Rightarrow> ignore_padding c | Some b \<Rightarrow> b);
          digits = (if framenum f = [] then []
                    else if ip then ''#''
                    else ''%0'' @ str_int (int (padding f)) @ ''d'')
      in head f @ digits @ tail f)"

section \<open>Sequence\<close>

text \<open>
  The dict \<open>_frames\<close> is an association list in insertion order; \<open>AList.update\<close>
  is the dict assignment (an existing key keeps its place, a new key goes last).
\<close>

record Sequence =
  dict_frames :: "(int \<times> File) list"
  seq_name :: string
  seq_path :: string
  seq_namehead :: string
  seq_head :: string
  seq_tail :: string
  seq_ext :: string
  seq_padding :: nat
  inconsistent_padding :: bool

text \<open>The state \<open>Sequence.__init__\<close> sets up before it appends a file.\<close>

definition Sequence_empty :: Sequence where
  "Sequence_empty =
     \<lparr> dict_frames = [], seq_name = [], seq_path = [], seq_namehead = [], seq_head = [],
       seq_tail = [], seq_ext = [], seq_padding = 0, inconsistent_padding = False \<rparr>"

definition frames :: "Sequence \<Rightarrow> nat" where
  "frames s = length (dict_frames s)"

definition frame_keys :: "Sequence \<Rightarrow> int list" where
  "frame_keys s = map fst (dict_frames s)"

definition start :: "Sequence \<Rightarrow> error + int" where
  "start s = py_min (frame_keys s)"

definition end_frame :: "Sequence \<Rightarrow> error + int" where
  "end_frame s = py_max (frame_keys s)"

definition implied_frames :: "Sequence \<Rightarrow> error + int" where
  "implied_frames s =
     (case end_frame s of Inl e \<Rightarrow> Inl e
      | Inr en \<Rightarrow> (case start s of Inl e \<Rightarrow> Inl e | Inr st \<Rightarrow> Inr (en - st + 1)))"

definition missing_frames :: "Sequence \<Rightarrow> error + int" where
  "missing_frames s =
     (case end_frame s of Inl e \<Rightarrow> Inl e
      | Inr en \<Rightarrow> (case start s of Inl e \<Rightarrow> Inl e
                   | Inr st \<Rightarrow> Inr (en - (st - 1) - int (frames s))))"

definition is_missing_frames :: "Sequence \<Rightarrow> error + bool" where
  "is_missing_frames s =
     (case implied_frames s of Inl e \<Rightarrow> Inl e | Inr n \<Rightarrow> Inr (int (frames s) \<noteq> n))"

definition get_frame :: "Sequence \<Rightarrow> int \<Rightarrow> error + File" where
  "get_frame s k = (case map_of (dict_frames s) k of None \<Rightarrow> Inl KeyError | Some f \<Rightarrow> Inr f)"

definition get_missing_frames :: "Sequence \<Rightarrow> error + int list" where
  "get_missing_frames s =
     (case start s of Inl e \<Rightarrow> Inl e
      | Inr st \<Rightarrow> (case end_frame s of Inl e \<Rightarrow> Inl e
                   | Inr en \<Rightarrow> Inr (filter (\<lambda>k. k \<notin> set (frame_keys s)) [st..en])))"

text \<open>
  \<open>Sequence.append\<close>.  The argument is a File object or a path string.  The result
  is the exception raised, if any, and the sequence after the call.
\<close>

datatype append_arg = FileObj File | PathStr string

definition append ::
  "cfg \<Rightarrow> (string \<Rightarrow> Stat option) \<Rightarrow> Sequence \<Rightarrow> append_arg \<Rightarrow> error option \<times> Sequence" where
  "append c os_stat s arg =
     (let file = (case arg of FileObj f \<Rightarrow> f
                  | PathStr p \<Rightarrow> File_init os_stat p StatsNone None)
      in if (case arg of FileObj _ \<Rightarrow> False
             | PathStr _ \<Rightarrow> length (dict_frames s) > 0 \<and>
                            get_seq_key c file (Some (ignore_padding c)) \<noteq> seq_name s)
         then (Some ValueError_not_member, s)
         else (case frame file of
                 None \<Rightarrow> (Some ValueError_cannot_sequence, s)
               | Some k \<Rightarrow>
                   if frames s = 0
                   then (None, s\<lparr> seq_namehead := namehead file, seq_path := path file,
                                  seq_head := head file, seq_tail := tail file,
                                  seq_ext := ext file, seq_padding := padding file,
                                  seq_name := get_seq_key c file (Some (ignore_padding c)),
                                  dict_frames := AList.update k file (dict_frames s) \<rparr>)
                   else if k \<in> set (frame_keys s)
                   then (Some IndexError_already_in_sequence, s)
                   else if seq_padding s < padding file
                   then (None, s\<lparr> inconsistent_padding := True, seq_padding := padding file,
                                  dict_frames := AList.update k file (dict_frames s) \<rparr>)
                   else (None, s\<lparr> dict_frames := AList.update k file (dict_frames s) \<rparr>)))"

text \<open>A run of appends stops at the first exception.\<close>

fun append_all ::
  "cfg \<Rightarrow> (string \<Rightarrow> Stat option) \<Rightarrow> Sequence \<Rightarrow> append_arg list \<Rightarrow> error option \<times> Sequence" where
  "append_all c os_stat s [] = (None, s)"
| "append_all c os_stat s (a # as) =
     (case append c os_stat s a of
        (Some e, s') \<Rightarrow> (Some e, s')
      | (None, s') \<Rightarrow> append_all c os_stat s' as)"

text \<open>The File that \<open>append\<close> works on for a given argument.\<close>

definition arg_file :: "(string \<Rightarrow> Stat option) \<Rightarrow> append_arg \<Rightarrow> File" where
  "arg_file os_stat arg =
     (case arg of FileObj f \<Rightarrow> f | PathStr p \<Rightarrow> File_init os_stat p StatsNone None)"

subsection \<open>format\<close>

definition implied_range :: "Sequence \<Rightarrow> error + string" where
  "implied_range s =
     (case start s of Inl e \<Rightarrow> Inl e
      | Inr st \<Rightarrow> (case get_frame s st of Inl e \<Rightarrow> Inl e
      | Inr f1 \<Rightarrow> (case end_frame s of Inl e \<Rightarrow> Inl e
      | Inr en \<Rightarrow> (case get_frame s en of Inl e \<Rightarrow> Inl e
      | Inr f2 \<Rightarrow> Inr (''['' @ framenum f1 @ ''-'' @ framenum f2 @ '']'')))))"

definition explicit_range :: "Sequence \<Rightarrow> error + string" where
  "explicit_range s = fst (frame_ranges_to_string (PyList (sort (frame_keys s))))"

definition num_missing_frames :: "Sequence \<Rightarrow> error + string" where
  "num_missing_frames s =
     (case missing_frames s of Inl e \<Rightarrow> Inl e | Inr n \<Rightarrow> Inr (str_int n))"

definition explicit_missing_range :: "Sequence \<Rightarrow> error + string" where
  "explicit_missing_range s =
     (case get_missing_frames s of Inl e \<Rightarrow> Inl e
      | Inr ms \<Rightarrow> fst (frame_ranges_to_string (PyList ms)))"

text \<open>
  The lookup in \<open>directive_mapper\<close> followed by the call of the method found; a
  character that is not in the table is a KeyError.
\<close>

definition directive :: "Sequence \<Rightarrow> char \<Rightarrow> error + string" where
  "directive s ch =
     (if ch = CHR ''%'' then Inr ''%''
      else if ch = CHR ''p'' then Inr (seq_path s)
      else if ch = CHR ''h'' then Inr (seq_namehead s)
      else if ch = CHR ''H'' then Inr (seq_head s)
      else if ch = CHR ''f'' then Inr (str_int (int (frames s)))
      else if ch = CHR ''r'' then implied_range s
      else if ch = CHR ''R'' then explicit_range s
      else if ch = CHR ''m'' then num_missing_frames s
      else if ch = CHR ''M'' then explicit_missing_range s
      else if ch = CHR ''D'' then Inr (replicate (seq_padding s) CHR ''#'')
      else if ch = CHR ''P'' then Inr (''%0'' @ str_int (int (seq_padding s)) @ ''d'')
      else if ch = CHR ''t'' then Inr (join ''.'' (butlast (split_chr CHR ''.'' (seq_tail s))))
      else if ch = CHR ''T'' then Inr (seq_tail s)
      else if ch = CHR ''e'' then Inr (seq_ext s)
      else Inl KeyError)"

fun format_loop :: "Sequence \<Rightarrow> string \<Rightarrow> bool \<Rightarrow> string \<Rightarrow> error + string" where
  "format_loop s new_string matched [] = Inr new_string"
| "format_loop s new_string matched (ch # rest) =
     (if matched
      then (case directive s ch of
              Inl e \<Rightarrow> Inl e
            | Inr d \<Rightarrow> format_loop s (new_string @ d) False rest)
      else if ch = CHR ''%'' then format_loop s new_string True rest
      else format_loop s (new_string @ [ch]) False rest)"

definition format :: "Sequence \<Rightarrow> string \<Rightarrow> error + string" where
  "format s fmt = format_loop s [] False fmt"

text \<open>The characters of a template that are read as directive letters.\<close>

fun directives :: "bool \<Rightarrow> string \<Rightarrow> char list" where
  "directives matched [] = []"
| "directives matched (ch # rest) =
     (if matched then ch # directives False rest
      else if ch = CHR ''%'' then directives True rest
      else directives False rest)"

subsection \<open>Example data\<close>

text \<open>
  A configuration with the default \<open>ignore_padding = true\<close>, a file system on which
  no path exists, and the sequence of the frames 10, 11, 14, 15 and 20 of \<open>/a/x.NN.exr\<close>.
\<close>

definition example_cfg :: cfg where
  "example_cfg = \<lparr> ignore_padding = True, get_stats = False \<rparr>"

definition no_files :: "string \<Rightarrow> Stat option" where
  "no_files p = None"

definition example_sequence :: Sequence where
  "example_sequence =
     snd (append_all example_cfg no_files Sequence_empty
            (map PathStr [''/a/x.10.exr'', ''/a/x.11.exr'', ''/a/x.14.exr'', ''/a/x.15.exr'',
                          ''/a/x.20.exr'']))"

subsection \<open>Example files\<close>

text \<open>
  A file system on which \<open>/a/x.10.exr\<close> exists with a size of 42 bytes, and the File
  constructed for that path from a stat snapshot whose size is zero.
\<close>

definition disk_with_file :: "string \<Rightarrow> Stat option" where
  "disk_with_file p =
     (if p = ''/a/x.10.exr''
      then Some (Stat_init (Some 42) (Some 7) (Some 0) (Some 0) (Some 0) (Some 33188) (Some 1)
                   (Some 1) (Some 1000) (Some 1000))
      else None)"

definition zero_size_file :: File where
  "zero_size_file = File_init no_files ''/a/x.10.exr'' (StatsDict [(''size'', Some 0)]) None"

section \<open>The frame extractor\<close>

lemma match_None_iff:
  "frame_extract_re_match stem = None \<longleftrightarrow> (\<forall>c\<in>set stem. \<not> isdigit c)"
proof -
  have "dropWhile (\<lambda>c. \<not> isdigit c) (rev stem) = [] \<longleftrightarrow> (\<forall>c\<in>set (rev stem). \<not> isdigit c)"
    by (simp add: dropWhile_eq_Nil_conv)
  then show ?thesis
    by (simp add: frame_extract_re_match_def Let_def)
qed

lemma match_Some_parts:
  assumes "frame_extract_re_match stem = Some (h, f, t)"
  shows "(case h of None \<Rightarrow> [] | Some x \<Rightarrow> x) @ f @ t = stem"
    and "f \<noteq> []" and "list_all isdigit f" and "\<forall>c\<in>set t. \<not> isdigit c"
    and "case h of None \<Rightarrow> True | Some x \<Rightarrow> x \<noteq> [] \<and> \<not> isdigit (last x)"
proof -
  define r where "r = rev stem"
  define rest where "rest = dropWhile (\<lambda>c. \<not> isdigit c) r"
  define tail_r where "tail_r = takeWhile (\<lambda>c. \<not> isdigit c) r"
  define frame_r where "frame_r = takeWhile isdigit rest"
  define head_r where "head_r = dropWhile isdigit rest"
  have m: "frame_extract_re_match stem =
      (if rest = [] then None
       else Some (if head_r = [] then None else Some (rev head_r), rev frame_r, rev tail_r))"
    unfolding frame_extract_re_match_def Let_def r_def rest_def tail_r_def frame_r_def head_r_def
    by (rule refl)
  have ne: "rest \<noteq> []"
    using assms m by (cases "rest = []") simp_all
  with assms m have eq: "(h, f, t) =
      (if head_r = [] then None else Some (rev head_r), rev frame_r, rev tail_r)"
    by simp
  from eq have h: "h = (if head_r = [] then None else Some (rev head_r))"
    and f: "f = rev frame_r" and t: "t = rev tail_r"
    by simp_all
  have r: "r = tail_r @ frame_r @ head_r"
    by (simp add: tail_r_def rest_def frame_r_def head_r_def)
  have "stem = rev r" by (simp add: r_def)
  also have "\<dots> = rev head_r @ rev frame_r @ rev tail_r" by (simp add: r)
  finally have stem: "stem = rev head_r @ f @ t" by (simp add: f t)
  show "(case h of None \<Rightarrow> [] | Some x \<Rightarrow> x) @ f @ t = stem"
    by (simp add: h stem)
  have "isdigit (hd rest)"
    using ne hd_dropWhile [of "\<lambda>c. \<not> isdigit c" r] by (simp add: rest_def)
  then have "frame_r \<noteq> []"
    using ne by (cases rest) (auto simp: frame_r_def)
  then show "f \<noteq> []" by (simp add: f)
  show "list_all isdigit f"
    by (auto simp: f frame_r_def list_all_iff dest: set_takeWhileD)
  show "\<forall>c\<in>set t. \<not> isdigit c"
    by (auto simp: t tail_r_def dest: set_takeWhileD)
  show "case h of None \<Rightarrow> True | Some x \<Rightarrow> x \<noteq> [] \<and> \<not> isdigit (last x)"
  proof (cases "head_r = []")
    case True
    then show ?thesis by (simp add: h)
  next
    case False
    then have "\<not> isdigit (hd head_r)"
      using hd_dropWhile [of isdigit rest] by (simp add: head_r_def)
    with False show ?thesis by (simp add: h last_rev)
  qed
qed

text \<open>
  Claim C2.  For a stem with at least one digit, \<open>extract_frame\<close> returns three
  parts whose concatenation is the stem; the frame string is a non-empty run of digits,
  kept as written; no digit follows it (it is the last run) and no digit stands right
  before it (it is maximal).  A stem without a digit comes back whole, with an empty
  frame string and an empty tail.  When the head group of the match is unset, the head
  returned is the empty string.
\<close>

theorem extract_frame_last_digit_run:
  "((\<exists>c\<in>set stem. isdigit c) \<longrightarrow>
      (\<exists>head frame_str tail.
         extract_frame stem = (head, frame_str, tail) \<and>
         head @ frame_str @ tail = stem \<and>
         frame_str \<noteq> [] \<and> list_all isdigit frame_str \<and>
         (\<forall>c\<in>set tail. \<not> isdigit c) \<and>
         (head = [] \<or> \<not> isdigit (last head)))) \<and>
   ((\<forall>c\<in>set stem. \<not> isdigit c) \<longrightarrow> extract_frame stem = (stem, [], [])) \<and>
   (\<forall>f t. frame_extract_re_match stem = Some (None, f, t) \<longrightarrow> extract_frame stem = ([], f, t))"
proof (intro conjI impI allI)
  assume "\<exists>c\<in>set stem. isdigit c"
  then have "frame_extract_re_match stem \<noteq> None"
    by (simp add: match_None_iff)
  then obtain h f t where m: "frame_extract_re_match stem = Some (h, f, t)"
    by (cases "frame_extract_re_match stem") auto
  have e: "extract_frame stem = ((case h of None \<Rightarrow> [] | Some x \<Rightarrow> x), f, t)"
    by (simp add: extract_frame_def m)
  from match_Some_parts [OF m] e
  show "\<exists>head frame_str tail.
         extract_frame stem = (head, frame_str, tail) \<and>
         head @ frame_str @ tail = stem \<and>
         frame_str \<noteq> [] \<and> list_all isdigit frame_str \<and>
         (\<forall>c\<in>set tail. \<not> isdigit c) \<and>
         (head = [] \<or> \<not> isdigit (last head))"
    by (cases h) auto
next
  assume "\<forall>c\<in>set stem. \<not> isdigit c"
  then have "frame_extract_re_match stem = None"
    by (simp add: match_None_iff)
  then show "extract_frame stem = (stem, [], [])"
    by (simp add: extract_frame_def)
next
  fix f t
  assume "frame_extract_re_match stem = Some (None, f, t)"
  then show "extract_frame stem = ([], f, t)"
    by (simp add: extract_frame_def)
qed

theorem extract_frame_last_digit_run_witness:
  "(\<exists>c\<in>set ''shot.0012b''. isdigit c) \<and>
   (\<exists>head frame_str tail.
      extract_frame ''shot.0012b'' = (head, frame_str, tail) \<and>
      head @ frame_str @ tail = ''shot.0012b'' \<and> frame_str \<noteq> []) \<and>
   extract_frame ''shot.0012b'' = (''shot.'', ''0012'', ''b'') \<and>
   \<not> (\<exists>c\<in>set ''notes''. isdigit c) \<and>
   extract_frame ''notes'' = (''notes'', [], []) \<and>
   frame_extract_re_match ''0012b'' = Some (None, ''0012'', ''b'') \<and>
   extract_frame ''0012b'' = ([], ''0012'', ''b'')"
proof -
  have d: "\<exists>c\<in>set ''shot.0012b''. isdigit c" by (simp add: isdigit_def)
  have n: "\<forall>c\<in>set ''notes''. \<not> isdigit c" by (simp add: isdigit_def)
  have m: "frame_extract_re_match ''0012b'' = Some (None, ''0012'', ''b'')"
    by (simp add: frame_extract_re_match_def isdigit_def)
  have e0: "\<exists>head frame_str tail.
      extract_frame ''shot.0012b'' = (head, frame_str, tail) \<and>
      head @ frame_str @ tail = ''shot.0012b'' \<and> frame_str \<noteq> []"
    using extract_frame_last_digit_run [of "''shot.0012b''"] d by blast
  have e1: "extract_frame ''shot.0012b'' = (''shot.'', ''0012'', ''b'')"
    by (simp add: extract_frame_def frame_extract_re_match_def isdigit_def)
  have e2: "extract_frame ''notes'' = (''notes'', [], [])"
    using extract_frame_last_digit_run [of "''notes''"] n by blast
  have e3: "extract_frame ''0012b'' = ([], ''0012'', ''b'')"
    using extract_frame_last_digit_run [of "''0012b''"] m by blast
  from d e0 e1 n e2 m e3 show ?thesis by blast
qed

section \<open>The range compressor\<close>

lemma runs_from_nonempty: "runs_from a b xs \<noteq> []"
  by (induction xs arbitrary: a b) auto

lemma runs_from_hd: "fst (hd (runs_from a b xs)) = a"
  by (induction xs arbitrary: b) auto

lemma runs_from_ordered: "a \<le> b \<Longrightarrow> list_all (\<lambda>r. fst r \<le> snd r) (runs_from a b xs)"
  by (induction xs arbitrary: a b) auto

lemma runs_from_concat:
  "a \<le> b \<Longrightarrow> concat (map (\<lambda>r. [fst r..snd r]) (runs_from a b xs)) = [a..b] @ xs"
proof (induction xs arbitrary: a b)
  case Nil
  then show ?case by simp
next
  case (Cons x xs)
  show ?case
  proof (cases "x = b + 1")
    case True
    with Cons.prems have "a \<le> x" by simp
    from Cons.IH [OF this] True Cons.prems show ?thesis
      by (simp add: upto_rec2)
  next
    case False
    from Cons.IH [of x x] False show ?thesis by simp
  qed
qed

lemma runs_from_no_adjacent: "no_adjacent_runs (runs_from a b xs)"
proof (induction xs arbitrary: a b)
  case Nil
  then show ?case by simp
next
  case (Cons x xs)
  show ?case
  proof (cases "x = b + 1")
    case True
    then show ?thesis using Cons.IH by simp
  next
    case False
    obtain r rs where rr: "runs_from x x xs = r # rs"
      using runs_from_nonempty [of x x xs] by (cases "runs_from x x xs") auto
    have "fst r = x" using runs_from_hd [of x x xs] rr by simp
    with False rr Cons.IH [of x x] show ?thesis by simp
  qed
qed

text \<open>
  The loop invariant of the first loop: \<open>range_i\<close> is the index of the last element of
  \<open>ranges\<close>, that element is the interval from \<open>a\<close> to \<open>b\<close>, and the loop leaves
  the intervals of \<open>runs_from a b xs\<close> after the ranges it had closed before.
\<close>

lemma range_loop_inv:
  "a \<le> b \<Longrightarrow>
   fold range_step xs (rs @ [[a..b]], length rs) =
     (rs @ map (\<lambda>r. [fst r..snd r]) (runs_from a b xs),
      length rs + length (runs_from a b xs) - 1)"
proof (induction xs arbitrary: rs a b)
  case Nil
  then show ?case by simp
next
  case (Cons x xs)
  have last_ab: "last [a..b] = b"
    using Cons.prems by (simp add: upto_rec2)
  show ?case
  proof (cases "x = b + 1")
    case True
    with Cons.prems have ax: "a \<le> x" by simp
    have step: "range_step x (rs @ [[a..b]], length rs) = (rs @ [[a..x]], length rs)"
      using True Cons.prems last_ab by (simp add: range_step_def upto_rec2)
    have "fold range_step (x # xs) (rs @ [[a..b]], length rs) =
        fold range_step xs (rs @ [[a..x]], length rs)"
      by (simp add: step)
    also have "\<dots> = (rs @ map (\<lambda>r. [fst r..snd r]) (runs_from a x xs),
        length rs + length (runs_from a x xs) - 1)"
      by (rule Cons.IH [OF ax])
    also have "runs_from a x xs = runs_from a b (x # xs)"
      using True by simp
    finally show ?thesis .
  next
    case False
    have step: "range_step x (rs @ [[a..b]], length rs) =
        ((rs @ [[a..b]]) @ [[x..x]], length (rs @ [[a..b]]))"
      using False last_ab by (auto simp: range_step_def)
    have ne: "length (runs_from x x xs) \<noteq> 0"
      using runs_from_nonempty [of x x xs] by simp
    have "fold range_step (x # xs) (rs @ [[a..b]], length rs) =
        fold range_step xs ((rs @ [[a..b]]) @ [[x..x]], length (rs @ [[a..b]]))"
      by (simp add: step)
    also have "\<dots> = ((rs @ [[a..b]]) @ map (\<lambda>r. [fst r..snd r]) (runs_from x x xs),
        length (rs @ [[a..b]]) + length (runs_from x x xs) - 1)"
      by (rule Cons.IH) simp
    also have "\<dots> = (rs @ map (\<lambda>r. [fst r..snd r]) (runs_from a b (x # xs)),
        length rs + length (runs_from a b (x # xs)) - 1)"
      using False ne by simp
    finally show ?thesis .
  qed
qed

lemma render_range_interval:
  "a \<le> b \<Longrightarrow> render_range [a..b] = render_run (a, b)"
proof -
  assume ab: "a \<le> b"
  have l: "last [a..b] = b" using ab by (simp add: upto_rec2)
  have h: "[a..b] ! 0 = a" using ab by (simp add: upto_rec1)
  have len: "length [a..b] > 1 \<longleftrightarrow> a < b" using ab by simp
  show ?thesis
    unfolding render_range_def render_run_def l h len by simp
qed

lemma render_ranges_runs:
  "list_all (\<lambda>r. fst r \<le> snd r) rs \<Longrightarrow>
   map render_range (map (\<lambda>r. [fst r..snd r]) rs) = map render_run rs"
  by (induction rs) (auto simp: render_range_interval)

lemma frame_ranges_to_string_spec:
  assumes "arg \<noteq> PyIter []"
  shows "fst (frame_ranges_to_string arg) = Inr (spec_range_string (items arg))"
proof (cases "items arg")
  case Nil
  with assms have "falsy arg" by (cases arg) simp_all
  with Nil show ?thesis
    by (simp add: frame_ranges_to_string_def spec_range_string_def)
next
  case (Cons x xs)
  have "fold range_step xs ([] @ [[x..x]], length ([] :: int list list)) =
      ([] @ map (\<lambda>r. [fst r..snd r]) (runs_from x x xs),
       length ([] :: int list list) + length (runs_from x x xs) - 1)"
    by (rule range_loop_inv) simp
  then have f: "fst (fold range_step xs ([[x]], 0)) = map (\<lambda>r. [fst r..snd r]) (runs_from x x xs)"
    by simp
  have o: "list_all (\<lambda>r. fst r \<le> snd r) (runs_from x x xs)"
    by (rule runs_from_ordered) simp
  have "\<not> falsy arg" using Cons by (cases arg) simp_all
  then show ?thesis
    using Cons by (simp add: frame_ranges_to_string_def spec_range_string_def f
        render_ranges_runs [OF o, unfolded map_map] Let_def)
qed

lemma maximal_runs_decompose:
  "concat (map (\<lambda>r. [fst r..snd r]) (maximal_runs xs)) = xs \<and>
   list_all (\<lambda>r. fst r \<le> snd r) (maximal_runs xs) \<and>
   no_adjacent_runs (maximal_runs xs)"
proof (cases xs)
  case Nil
  then show ?thesis by simp
next
  case (Cons x ys)
  then show ?thesis
    using runs_from_concat [of x x ys] runs_from_ordered [of x x ys]
      runs_from_no_adjacent [of x x ys] by simp
qed

lemma frts_empty: "fst (frame_ranges_to_string (PyList [])) = Inr ''[]''"
  by (simp add: frame_ranges_to_string_def)

lemma frts_single: "fst (frame_ranges_to_string (PyList [5])) = Inr ''[5]''"
  by (simp add: frame_ranges_to_string_def render_range_def str_int_def digit_char_def)

lemma frts_1235: "fst (frame_ranges_to_string (PyList [1, 2, 3, 5])) = Inr ''[1-3, 5]''"
  by (simp add: frame_ranges_to_string_def range_step_def render_range_def str_int_def
      digit_char_def)

text \<open>
  Claim C3.  For a sorted list of distinct integers, however it is passed (as a list
  object, as another sequence or as a one-shot iterator that is not empty), the call
  returns a string, and that string is the bracketed, comma-and-space separated
  rendering of the maximal runs of consecutive integers: the runs, in order, cover the
  list exactly, each run is an interval, no run continues the one before it, a run of
  more than one integer renders as \<open>start-end\<close> and an isolated integer renders
  alone.  The empty list gives \<open>[]\<close>, \<open>[5]\<close> gives \<open>[5]\<close> and
  \<open>[1,2,3,5]\<close> gives \<open>[1-3, 5]\<close>.
\<close>

theorem frame_ranges_to_string_maximal_runs:
  "(sorted (items arg) \<and> distinct (items arg) \<and> arg \<noteq> PyIter [] \<longrightarrow>
      fst (frame_ranges_to_string arg) =
        Inr (''['' @ join '', '' (map render_run (maximal_runs (items arg))) @ '']'') \<and>
      concat (map (\<lambda>r. [fst r..snd r]) (maximal_runs (items arg))) = items arg \<and>
      list_all (\<lambda>r. fst r \<le> snd r) (maximal_runs (items arg)) \<and>
      no_adjacent_runs (maximal_runs (items arg))) \<and>
   (\<forall>r. render_run r = (if fst r < snd r then str_int (fst r) @ ''-'' @ str_int (snd r)
                        else str_int (fst r))) \<and>
   fst (frame_ranges_to_string (PyList [])) = Inr ''[]'' \<and>
   fst (frame_ranges_to_string (PyList [5])) = Inr ''[5]'' \<and>
   fst (frame_ranges_to_string (PyList [1, 2, 3, 5])) = Inr ''[1-3, 5]''"
  using frame_ranges_to_string_spec [of arg] maximal_runs_decompose [of "items arg"]
    frts_empty frts_single frts_1235
  by (simp add: spec_range_string_def render_run_def)

theorem frame_ranges_to_string_maximal_runs_witness:
  "sorted (items (PySeq [10, 11, 12, 14, 20, 21])) \<and>
   distinct (items (PySeq [10, 11, 12, 14, 20, 21])) \<and>
   PySeq [10, 11, 12, 14, 20, 21] \<noteq> PyIter [] \<and>
   maximal_runs (items (PySeq [10, 11, 12, 14, 20, 21])) = [(10, 12), (14, 14), (20, 21)] \<and>
   fst (frame_ranges_to_string (PySeq [10, 11, 12, 14, 20, 21])) = Inr ''[10-12, 14, 20-21]''"
proof -
  have s: "sorted (items (PySeq [10, 11, 12, 14, 20, 21])) \<and>
      distinct (items (PySeq [10, 11, 12, 14, 20, 21])) \<and>
      PySeq [10, 11, 12, 14, 20, 21] \<noteq> PyIter []"
    by simp
  have m: "maximal_runs (items (PySeq [10, 11, 12, 14, 20, 21])) = [(10, 12), (14, 14), (20, 21)]"
    by simp
  have "fst (frame_ranges_to_string (PySeq [10, 11, 12, 14, 20, 21])) =
      Inr (''['' @ join '', '' (map render_run (maximal_runs (items (PySeq [10, 11, 12, 14, 20, 21])))) @ '']'')"
    using frame_ranges_to_string_maximal_runs [of "PySeq [10, 11, 12, 14, 20, 21]"] s by blast
  also have "\<dots> = Inr ''[10-12, 14, 20-21]''"
    unfolding m by (simp add: render_run_def str_int_def digit_char_def)
  finally show ?thesis using s m by blast
qed

text \<open>
  Claim C10, as stated, fails for a non-list iterable that is a one-shot iterator: the
  copy of line 59 takes all its items, so a generator that had 1, 2, 3 and 5 to yield
  has nothing left after the call.
\<close>

theorem frame_ranges_to_string_iterator_counterexample:
  "snd (frame_ranges_to_string (PyIter [1, 2, 3, 5])) = PyIter [] \<and>
   snd (frame_ranges_to_string (PyIter [1, 2, 3, 5])) \<noteq> PyIter [1, 2, 3, 5]"
  by (simp add: frame_ranges_to_string_def Let_def)

text \<open>
  Claim C10, amended.  A call with a non-empty list object leaves the caller's list
  without its first element; a sequence that is not a list object (a tuple, a range, a
  set) is copied and is the same after the call as before; a one-shot iterator is
  consumed by the copy and is exhausted after the call.
\<close>

theorem frame_ranges_to_string_pops_argument:
  "(xs \<noteq> [] \<longrightarrow> snd (frame_ranges_to_string (PyList xs)) = PyList (tl xs)) \<and>
   snd (frame_ranges_to_string (PySeq xs)) = PySeq xs \<and>
   snd (frame_ranges_to_string (PyIter xs)) = PyIter []"
  by (cases xs) (simp_all add: frame_ranges_to_string_def Let_def)

theorem frame_ranges_to_string_pops_argument_witness:
  "[1, 2, 3, 5] \<noteq> ([] :: int list) \<and>
   snd (frame_ranges_to_string (PyList [1, 2, 3, 5])) = PyList [2, 3, 5] \<and>
   snd (frame_ranges_to_string (PySeq [1, 2, 3, 5])) = PySeq [1, 2, 3, 5] \<and>
   snd (frame_ranges_to_string (PyIter [1, 2, 3, 5])) = PyIter []"
  using frame_ranges_to_string_pops_argument [of "[1, 2, 3, 5]"] by simp

section \<open>Range facts of a sequence\<close>

lemma py_min_Min: "xs \<noteq> [] \<Longrightarrow> py_min xs = Inr (Min (set xs))"
proof (cases xs)
  case Nil
  assume "xs \<noteq> []"
  with Nil show ?thesis by simp
next
  case (Cons y ys)
  have "fold min ys y = Min (set (y # ys))" by (rule Min.set_eq_fold [symmetric])
  with Cons show ?thesis by simp
qed

lemma py_max_Max: "xs \<noteq> [] \<Longrightarrow> py_max xs = Inr (Max (set xs))"
proof (cases xs)
  case Nil
  assume "xs \<noteq> []"
  with Nil show ?thesis by simp
next
  case (Cons y ys)
  have "fold max ys y = Max (set (y # ys))" by (rule Max.set_eq_fold [symmetric])
  with Cons show ?thesis by simp
qed

lemma start_nonempty: "dict_frames s \<noteq> [] \<Longrightarrow> start s = Inr (Min (set (frame_keys s)))"
  by (simp add: start_def frame_keys_def py_min_Min)

lemma end_nonempty: "dict_frames s \<noteq> [] \<Longrightarrow> end_frame s = Inr (Max (set (frame_keys s)))"
  by (simp add: end_frame_def frame_keys_def py_max_Max)

lemma implied_frames_nonempty:
  "dict_frames s \<noteq> [] \<Longrightarrow>
   implied_frames s = Inr (Max (set (frame_keys s)) - Min (set (frame_keys s)) + 1)"
  by (simp add: implied_frames_def start_nonempty end_nonempty)

lemma missing_frames_nonempty:
  "dict_frames s \<noteq> [] \<Longrightarrow> distinct (frame_keys s) \<Longrightarrow>
   missing_frames s =
     Inr (Max (set (frame_keys s)) - Min (set (frame_keys s)) + 1 - int (card (set (frame_keys s))))"
proof -
  assume ne: "dict_frames s \<noteq> []" and d: "distinct (frame_keys s)"
  have "card (set (frame_keys s)) = length (frame_keys s)"
    using d by (rule distinct_card)
  then have c: "int (card (set (frame_keys s))) = int (frames s)"
    by (simp add: frames_def frame_keys_def)
  show ?thesis
    unfolding c by (simp add: missing_frames_def start_nonempty [OF ne] end_nonempty [OF ne])
qed

lemma get_missing_frames_nonempty:
  "dict_frames s \<noteq> [] \<Longrightarrow>
   get_missing_frames s =
     Inr (filter (\<lambda>k. k \<notin> set (frame_keys s))
            [Min (set (frame_keys s))..Max (set (frame_keys s))])"
  by (simp add: get_missing_frames_def start_nonempty end_nonempty)

lemma missing_list_facts:
  "sorted (filter (\<lambda>k. k \<notin> S) [a..b]) \<and> distinct (filter (\<lambda>k. k \<notin> S) [a..b]) \<and>
   set (filter (\<lambda>k. k \<notin> S) [a..b]) = {a..b} - S"
  by (auto intro: sorted_wrt_filter)

lemma example_keys_missing:
  assumes "set (frame_keys s) = {10, 11, 14, 15, 20}"
  shows "get_missing_frames s = Inr [12, 13, 16, 17, 18, 19]"
proof -
  from assms have ne: "dict_frames s \<noteq> []"
    by (auto simp: frame_keys_def)
  have "[10..20::int] = [10, 11, 12, 13, 14, 15, 16, 17, 18, 19, 20]"
    by (simp add: upto_rec1)
  then show ?thesis
    by (simp add: get_missing_frames_nonempty [OF ne] assms)
qed

lemma render_example_missing:
  "fst (frame_ranges_to_string (PyList [12, 13, 16, 17, 18, 19])) = Inr ''[12-13, 16-19]''"
  by (simp add: frame_ranges_to_string_def range_step_def render_range_def str_int_def
      digit_char_def)

lemma example_keys_format:
  assumes "set (frame_keys s) = {10, 11, 14, 15, 20}"
  shows "format s ''%M'' = Inr ''[12-13, 16-19]''"
  by (simp add: format_def directive_def explicit_missing_range_def
      example_keys_missing [OF assms] render_example_missing)

text \<open>
  Claim C8.  For a non-empty sequence whose dict has the key set \<open>S\<close>,
  \<open>implied_frames\<close> is \<open>max S - min S + 1\<close>, \<open>missing_frames\<close> is
  \<open>implied_frames\<close> minus the number of keys, and \<open>get_missing_frames\<close> returns the
  sorted integers between \<open>min S\<close> and \<open>max S\<close> that are not in \<open>S\<close>.  For
  the keys 10, 11, 14, 15, 20 the missing numbers are 12, 13, 16, 17, 18, 19 and
  \<open>%M\<close> renders \<open>[12-13, 16-19]\<close>.
\<close>

theorem sequence_range_facts:
  "(dict_frames s \<noteq> [] \<and> distinct (frame_keys s) \<longrightarrow>
      implied_frames s = Inr (Max (set (frame_keys s)) - Min (set (frame_keys s)) + 1) \<and>
      missing_frames s =
        Inr (Max (set (frame_keys s)) - Min (set (frame_keys s)) + 1
             - int (card (set (frame_keys s)))) \<and>
      (\<exists>ms. get_missing_frames s = Inr ms \<and> sorted ms \<and> distinct ms \<and>
            set ms = {Min (set (frame_keys s))..Max (set (frame_keys s))} - set (frame_keys s))) \<and>
   (set (frame_keys s) = {10, 11, 14, 15, 20} \<longrightarrow>
      get_missing_frames s = Inr [12, 13, 16, 17, 18, 19] \<and>
      format s ''%M'' = Inr ''[12-13, 16-19]'')"
proof (intro conjI impI)
  assume a: "dict_frames s \<noteq> [] \<and> distinct (frame_keys s)"
  then show "implied_frames s =
      Inr (Max (set (frame_keys s)) - Min (set (frame_keys s)) + 1)"
    by (simp add: implied_frames_nonempty)
  from a show "missing_frames s =
      Inr (Max (set (frame_keys s)) - Min (set (frame_keys s)) + 1
           - int (card (set (frame_keys s))))"
    by (simp add: missing_frames_nonempty)
  from a show "\<exists>ms. get_missing_frames s = Inr ms \<and> sorted ms \<and> distinct ms \<and>
      set ms = {Min (set (frame_keys s))..Max (set (frame_keys s))} - set (frame_keys s)"
    using missing_list_facts [of "set (frame_keys s)" "Min (set (frame_keys s))"
        "Max (set (frame_keys s))"]
    by (simp add: get_missing_frames_nonempty)
next
  assume "set (frame_keys s) = {10, 11, 14, 15, 20}"
  then show "get_missing_frames s = Inr [12, 13, 16, 17, 18, 19]"
    by (rule example_keys_missing)
next
  assume "set (frame_keys s) = {10, 11, 14, 15, 20}"
  then show "format s ''%M'' = Inr ''[12-13, 16-19]''"
    by (rule example_keys_format)
qed

lemma example_sequence_keys: "frame_keys example_sequence = [10, 11, 14, 15, 20]"
  by code_simp

theorem sequence_range_facts_witness:
  "dict_frames example_sequence \<noteq> [] \<and> distinct (frame_keys example_sequence) \<and>
   set (frame_keys example_sequence) = {10, 11, 14, 15, 20} \<and>
   implied_frames example_sequence = Inr 11 \<and>
   missing_frames example_sequence = Inr 6 \<and>
   get_missing_frames example_sequence = Inr [12, 13, 16, 17, 18, 19] \<and>
   format example_sequence ''%M'' = Inr ''[12-13, 16-19]''"
proof -
  have k: "frame_keys example_sequence = [10, 11, 14, 15, 20]"
    by (rule example_sequence_keys)
  have ne: "dict_frames example_sequence \<noteq> []"
    using k by (auto simp: frame_keys_def)
  have d: "distinct (frame_keys example_sequence)"
    by (simp add: k)
  have S: "set (frame_keys example_sequence) = {10, 11, 14, 15, 20}"
    by (simp add: k)
  note th = sequence_range_facts [of example_sequence]
  have i: "implied_frames example_sequence = Inr 11"
    using th ne d by (simp add: S)
  have m: "missing_frames example_sequence = Inr 6"
    using th ne d by (simp add: S)
  have g: "get_missing_frames example_sequence = Inr [12, 13, 16, 17, 18, 19]"
    using th S by blast
  have f: "format example_sequence ''%M'' = Inr ''[12-13, 16-19]''"
    using th S by blast
  from ne d S i m g f show ?thesis by blast
qed

section \<open>The empty sequence\<close>

lemma start_empty: "dict_frames s = [] \<Longrightarrow> start s = Inl ValueError_empty_min_max"
  by (simp add: start_def frame_keys_def)

lemma end_empty: "dict_frames s = [] \<Longrightarrow> end_frame s = Inl ValueError_empty_min_max"
  by (simp add: end_frame_def frame_keys_def)

lemma implied_frames_empty:
  "dict_frames s = [] \<Longrightarrow> implied_frames s = Inl ValueError_empty_min_max"
  by (simp add: implied_frames_def end_empty)

lemma missing_frames_empty:
  "dict_frames s = [] \<Longrightarrow> missing_frames s = Inl ValueError_empty_min_max"
  by (simp add: missing_frames_def end_empty)

lemma directive_empty_raises:
  assumes "dict_frames s = []" and "c = CHR ''r'' \<or> c = CHR ''m'' \<or> c = CHR ''M''"
  shows "directive s c = Inl ValueError_empty_min_max"
  using assms(2)
  by (auto simp: directive_def implied_range_def num_missing_frames_def
      explicit_missing_range_def get_missing_frames_def start_empty [OF assms(1)]
      missing_frames_empty [OF assms(1)])

lemma directive_empty_explicit_range:
  "dict_frames s = [] \<Longrightarrow> directive s CHR ''R'' = Inr ''[]''"
  by (simp add: directive_def explicit_range_def frame_keys_def frame_ranges_to_string_def)

lemma format_loop_empty_raises:
  assumes e: "dict_frames s = []"
  shows "c \<in> set (directives matched fmt) \<Longrightarrow>
         c = CHR ''r'' \<or> c = CHR ''m'' \<or> c = CHR ''M'' \<Longrightarrow>
         \<exists>err. format_loop s new_string matched fmt = Inl err"
proof (induction fmt arbitrary: new_string matched)
  case Nil
  then show ?case by simp
next
  case (Cons ch rest)
  show ?case
  proof (cases matched)
    case True
    show ?thesis
    proof (cases "directive s ch")
      case (Inl err)
      with True show ?thesis by simp
    next
      case (Inr d)
      have "ch \<noteq> c"
        using directive_empty_raises [OF e Cons.prems(2)] Inr by auto
      with Cons.prems(1) True have "c \<in> set (directives False rest)" by simp
      from Cons.IH [OF this Cons.prems(2)] True Inr show ?thesis by simp
    qed
  next
    case False
    show ?thesis
    proof (cases "ch = CHR ''%''")
      case True
      with Cons.prems(1) False have "c \<in> set (directives True rest)" by simp
      from Cons.IH [OF this Cons.prems(2)] True False show ?thesis by simp
    next
      case ne: False
      with Cons.prems(1) False have "c \<in> set (directives False rest)" by simp
      from Cons.IH [OF this Cons.prems(2)] ne False show ?thesis by simp
    qed
  qed
qed

text \<open>
  Claim C9, as stated, fails: on a sequence to which no file was appended, a template
  with \<open>%R\<close> does not raise.  \<open>sorted\<close> of the empty dict is the empty list, for
  which \<open>frame_ranges_to_string\<close> returns \<open>[]\<close> at line 57.
\<close>

theorem empty_sequence_explicit_range_counterexample:
  "format Sequence_empty ''%R'' = Inr ''[]''"
  by (simp add: format_def directive_empty_explicit_range Sequence_empty_def)

text \<open>
  Claim C9, amended.  On a sequence with an empty dict, \<open>start\<close>, \<open>end\<close>,
  \<open>implied_frames\<close> and \<open>missing_frames\<close> raise the ValueError of \<open>min\<close> or
  \<open>max\<close> of an empty iterable, and \<open>format\<close> raises on every template in which
  \<open>r\<close>, \<open>m\<close> or \<open>M\<close> is read as a directive letter.  The directive \<open>%R\<close>
  does not raise there: it renders \<open>[]\<close>.
\<close>

theorem empty_sequence_raises:
  "dict_frames s = [] \<longrightarrow>
     start s = Inl ValueError_empty_min_max \<and>
     end_frame s = Inl ValueError_empty_min_max \<and>
     implied_frames s = Inl ValueError_empty_min_max \<and>
     missing_frames s = Inl ValueError_empty_min_max \<and>
     ((\<exists>c\<in>set (directives False fmt). c = CHR ''r'' \<or> c = CHR ''m'' \<or> c = CHR ''M'') \<longrightarrow>
        (\<exists>err. format s fmt = Inl err)) \<and>
     format s ''%r'' = Inl ValueError_empty_min_max \<and>
     format s ''%m'' = Inl ValueError_empty_min_max \<and>
     format s ''%M'' = Inl ValueError_empty_min_max \<and>
     format s ''%R'' = Inr ''[]''"
proof (intro impI conjI)
  assume e: "dict_frames s = []"
  show "start s = Inl ValueError_empty_min_max" by (rule start_empty [OF e])
  show "end_frame s = Inl ValueError_empty_min_max" by (rule end_empty [OF e])
  show "implied_frames s = Inl ValueError_empty_min_max" by (rule implied_frames_empty [OF e])
  show "missing_frames s = Inl ValueError_empty_min_max" by (rule missing_frames_empty [OF e])
  show "format s ''%r'' = Inl ValueError_empty_min_max"
    by (simp add: format_def directive_empty_raises [OF e])
  show "format s ''%m'' = Inl ValueError_empty_min_max"
    by (simp add: format_def directive_empty_raises [OF e])
  show "format s ''%M'' = Inl ValueError_empty_min_max"
    by (simp add: format_def directive_empty_raises [OF e])
  show "format s ''%R'' = Inr ''[]''"
    by (simp add: format_def directive_empty_explicit_range [OF e])
  assume "\<exists>c\<in>set (directives False fmt). c = CHR ''r'' \<or> c = CHR ''m'' \<or> c = CHR ''M''"
  then obtain c where "c \<in> set (directives False fmt)"
    and "c = CHR ''r'' \<or> c = CHR ''m'' \<or> c = CHR ''M''" by blast
  then show "\<exists>err. format s fmt = Inl err"
    unfolding format_def by (rule format_loop_empty_raises [OF e])
qed

theorem empty_sequence_raises_witness:
  "dict_frames Sequence_empty = [] \<and>
   start Sequence_empty = Inl ValueError_empty_min_max \<and>
   end_frame Sequence_empty = Inl ValueError_empty_min_max \<and>
   implied_frames Sequence_empty = Inl ValueError_empty_min_max \<and>
   missing_frames Sequence_empty = Inl ValueError_empty_min_max \<and>
   (\<exists>c\<in>set (directives False ''%h%r%%''). c = CHR ''r'' \<or> c = CHR ''m'' \<or> c = CHR ''M'') \<and>
   (\<exists>err. format Sequence_empty ''%h%r%%'' = Inl err) \<and>
   format Sequence_empty ''%M'' = Inl ValueError_empty_min_max"
proof -
  have e: "dict_frames Sequence_empty = []" by (simp add: Sequence_empty_def)
  have d: "\<exists>c\<in>set (directives False ''%h%r%%''). c = CHR ''r'' \<or> c = CHR ''m'' \<or> c = CHR ''M''"
    by simp
  from empty_sequence_raises [of Sequence_empty "''%h%r%%''"] e d show ?thesis by blast
qed

section \<open>Appending to a sequence\<close>

text \<open>The definition of \<open>append\<close>, with the File it works on named by \<open>arg_file\<close>.\<close>

lemma append_alt:
  "append c os_stat s arg =
     (if (\<exists>p. arg = PathStr p) \<and> dict_frames s \<noteq> [] \<and>
         get_seq_key c (arg_file os_stat arg) (Some (ignore_padding c)) \<noteq> seq_name s
      then (Some ValueError_not_member, s)
      else (case frame (arg_file os_stat arg) of
              None \<Rightarrow> (Some ValueError_cannot_sequence, s)
            | Some k \<Rightarrow>
                if dict_frames s = []
                then (None, s\<lparr> seq_namehead := namehead (arg_file os_stat arg),
                               seq_path := path (arg_file os_stat arg),
                               seq_head := head (arg_file os_stat arg),
                               seq_tail := tail (arg_file os_stat arg),
                               seq_ext := ext (arg_file os_stat arg),
                               seq_padding := padding (arg_file os_stat arg),
                               seq_name := get_seq_key c (arg_file os_stat arg)
                                             (Some (ignore_padding c)),
                               dict_frames := AList.update k (arg_file os_stat arg)
                                                (dict_frames s) \<rparr>)
                else if k \<in> set (frame_keys s)
                then (Some IndexError_already_in_sequence, s)
                else if seq_padding s < padding (arg_file os_stat arg)
                then (None, s\<lparr> inconsistent_padding := True,
                               seq_padding := padding (arg_file os_stat arg),
                               dict_frames := AList.update k (arg_file os_stat arg)
                                                (dict_frames s) \<rparr>)
                else (None, s\<lparr> dict_frames := AList.update k (arg_file os_stat arg)
                                                (dict_frames s) \<rparr>)))"
  by (cases arg) (auto simp: append_def arg_file_def Let_def frames_def split: option.splits)

lemma keys_nonempty: "k \<in> set (frame_keys s) \<Longrightarrow> dict_frames s \<noteq> []"
  by (auto simp: frame_keys_def)

lemma append_success_dict:
  assumes "append c os_stat s a = (None, s')"
  shows "\<exists>k. frame (arg_file os_stat a) = Some k \<and>
             dict_frames s' = AList.update k (arg_file os_stat a) (dict_frames s)"
  using assms unfolding append_alt
  by (auto split: if_splits option.splits)

lemma append_success_stores:
  assumes "append c os_stat s a = (None, s')"
  shows "\<exists>k. frame (arg_file os_stat a) = Some k \<and>
             map_of (dict_frames s') k = Some (arg_file os_stat a) \<and>
             k \<in> set (frame_keys s')"
proof -
  from append_success_dict [OF assms] obtain k where
    k: "frame (arg_file os_stat a) = Some k" and
    d: "dict_frames s' = AList.update k (arg_file os_stat a) (dict_frames s)" by blast
  have "map_of (dict_frames s') k = Some (arg_file os_stat a)"
    by (simp add: d update_conv')
  moreover have "k \<in> set (frame_keys s')"
    by (simp add: frame_keys_def d dom_update)
  ultimately show ?thesis using k by simp
qed

lemma append_success_nonempty:
  "append c os_stat s a = (None, s') \<Longrightarrow> dict_frames s' \<noteq> []"
  using append_success_stores [of c os_stat s a s'] keys_nonempty by blast

text \<open>
  Claim C1.  Take any sequence and any file, given as a File object or as a path string,
  that has the sequence's key and whose frame number is already a key of the dict.  The
  append raises the IndexError of a collision and the sequence after the call is the
  sequence before it: the File stored for that frame, every other frame, the padding,
  the flag and the name are the same.  The order of two colliding files does not
  matter: whichever of two files with the sequence's key and the same frame number was
  appended first, the append of the other one collides and the first is still the one
  stored.
\<close>

theorem append_collision_unchanged:
  "(frame (arg_file os_stat arg) = Some k \<and> k \<in> set (frame_keys s) \<and>
    get_seq_key c (arg_file os_stat arg) (Some (ignore_padding c)) = seq_name s \<longrightarrow>
      append c os_stat s arg = (Some IndexError_already_in_sequence, s)) \<and>
   (append c os_stat s a1 = (None, s1) \<and>
    get_seq_key c (arg_file os_stat a1) (Some (ignore_padding c)) = seq_name s1 \<and>
    frame (arg_file os_stat a2) = frame (arg_file os_stat a1) \<and>
    get_seq_key c (arg_file os_stat a2) (Some (ignore_padding c)) = seq_name s1 \<longrightarrow>
      append c os_stat s1 a2 = (Some IndexError_already_in_sequence, s1) \<and>
      (\<exists>k1. frame (arg_file os_stat a1) = Some k1 \<and>
            map_of (dict_frames s1) k1 = Some (arg_file os_stat a1)))"
proof (intro conjI impI)
  assume a: "frame (arg_file os_stat arg) = Some k \<and> k \<in> set (frame_keys s) \<and>
    get_seq_key c (arg_file os_stat arg) (Some (ignore_padding c)) = seq_name s"
  then have "dict_frames s \<noteq> []" using keys_nonempty by blast
  with a show "append c os_stat s arg = (Some IndexError_already_in_sequence, s)"
    unfolding append_alt by simp
next
  assume h: "append c os_stat s a1 = (None, s1) \<and>
    get_seq_key c (arg_file os_stat a1) (Some (ignore_padding c)) = seq_name s1 \<and>
    frame (arg_file os_stat a2) = frame (arg_file os_stat a1) \<and>
    get_seq_key c (arg_file os_stat a2) (Some (ignore_padding c)) = seq_name s1"
  then obtain k1 where k1: "frame (arg_file os_stat a1) = Some k1"
    and st: "map_of (dict_frames s1) k1 = Some (arg_file os_stat a1)"
    and mem: "k1 \<in> set (frame_keys s1)"
    using append_success_stores [of c os_stat s a1 s1] by blast
  from mem have ne: "dict_frames s1 \<noteq> []" by (rule keys_nonempty)
  from h k1 have f2: "frame (arg_file os_stat a2) = Some k1" by simp
  from h have k2: "get_seq_key c (arg_file os_stat a2) (Some (ignore_padding c)) = seq_name s1"
    by blast
  from f2 mem ne k2 show "append c os_stat s1 a2 = (Some IndexError_already_in_sequence, s1)"
    by (simp add: append_alt)
  from k1 st show "\<exists>k1. frame (arg_file os_stat a1) = Some k1 \<and>
      map_of (dict_frames s1) k1 = Some (arg_file os_stat a1)"
    by blast
qed

lemma example_sequence_seq_name: "seq_name example_sequence = ''/a/x.#.exr''"
  by code_simp

lemma example_append_12:
  "fst (append example_cfg no_files example_sequence (PathStr ''/a/x.12.exr'')) = None \<and>
   seq_name (snd (append example_cfg no_files example_sequence (PathStr ''/a/x.12.exr'')))
     = ''/a/x.#.exr'' \<and>
   get_seq_key example_cfg (arg_file no_files (PathStr ''/a/x.12.exr''))
     (Some (ignore_padding example_cfg)) = ''/a/x.#.exr'' \<and>
   get_seq_key example_cfg (arg_file no_files (PathStr ''/a/x.012.exr''))
     (Some (ignore_padding example_cfg)) = ''/a/x.#.exr'' \<and>
   frame (arg_file no_files (PathStr ''/a/x.12.exr'')) = Some 12 \<and>
   frame (arg_file no_files (PathStr ''/a/x.012.exr'')) = Some 12"
  by code_simp

theorem append_collision_unchanged_witness:
  "frame (arg_file no_files (PathStr ''/a/x.10.exr'')) = Some 10 \<and>
   10 \<in> set (frame_keys example_sequence) \<and>
   get_seq_key example_cfg (arg_file no_files (PathStr ''/a/x.10.exr''))
     (Some (ignore_padding example_cfg)) = seq_name example_sequence \<and>
   append example_cfg no_files example_sequence (PathStr ''/a/x.10.exr'') =
     (Some IndexError_already_in_sequence, example_sequence) \<and>
   fst (append example_cfg no_files example_sequence (PathStr ''/a/x.12.exr'')) = None \<and>
   frame (arg_file no_files (PathStr ''/a/x.012.exr'')) =
     frame (arg_file no_files (PathStr ''/a/x.12.exr'')) \<and>
   append example_cfg no_files
     (snd (append example_cfg no_files example_sequence (PathStr ''/a/x.12.exr'')))
     (PathStr ''/a/x.012.exr'') =
     (Some IndexError_already_in_sequence,
      snd (append example_cfg no_files example_sequence (PathStr ''/a/x.12.exr''))) \<and>
   map_of (dict_frames (snd (append example_cfg no_files example_sequence
                               (PathStr ''/a/x.12.exr'')))) 12 =
     Some (arg_file no_files (PathStr ''/a/x.12.exr''))"
proof -
  define s1 where
    "s1 = snd (append example_cfg no_files example_sequence (PathStr ''/a/x.12.exr''))"
  have f: "frame (arg_file no_files (PathStr ''/a/x.10.exr'')) = Some 10"
    by code_simp
  have m: "10 \<in> set (frame_keys example_sequence)"
    by (simp add: example_sequence_keys)
  have k: "get_seq_key example_cfg (arg_file no_files (PathStr ''/a/x.10.exr''))
      (Some (ignore_padding example_cfg)) = seq_name example_sequence"
    unfolding example_sequence_seq_name by code_simp
  have c: "append example_cfg no_files example_sequence (PathStr ''/a/x.10.exr'') =
      (Some IndexError_already_in_sequence, example_sequence)"
    using append_collision_unchanged
      [where os_stat = no_files and c = example_cfg and s = example_sequence
        and arg = "PathStr ''/a/x.10.exr''" and k = 10] f m k
    by blast
  note e = example_append_12 [folded s1_def]
  from e have n: "fst (append example_cfg no_files example_sequence (PathStr ''/a/x.12.exr''))
      = None" by blast
  then have r: "append example_cfg no_files example_sequence (PathStr ''/a/x.12.exr'') =
      (None, s1)"
    by (simp add: s1_def prod_eq_iff)
  from e have k1: "get_seq_key example_cfg (arg_file no_files (PathStr ''/a/x.12.exr''))
      (Some (ignore_padding example_cfg)) = seq_name s1"
    and k2: "get_seq_key example_cfg (arg_file no_files (PathStr ''/a/x.012.exr''))
      (Some (ignore_padding example_cfg)) = seq_name s1"
    and f1: "frame (arg_file no_files (PathStr ''/a/x.12.exr'')) = Some 12"
    and f2: "frame (arg_file no_files (PathStr ''/a/x.012.exr'')) =
      frame (arg_file no_files (PathStr ''/a/x.12.exr''))"
    by simp_all
  from append_collision_unchanged
      [where os_stat = no_files and c = example_cfg and s = example_sequence
        and ?a1.0 = "PathStr ''/a/x.12.exr''" and ?s1.0 = s1
        and ?a2.0 = "PathStr ''/a/x.012.exr''"]
    r k1 k2 f2
  have o: "append example_cfg no_files s1 (PathStr ''/a/x.012.exr'') =
        (Some IndexError_already_in_sequence, s1) \<and>
      (\<exists>k1. frame (arg_file no_files (PathStr ''/a/x.12.exr'')) = Some k1 \<and>
         map_of (dict_frames s1) k1 = Some (arg_file no_files (PathStr ''/a/x.12.exr'')))"
    by blast
  with f1 have st: "map_of (dict_frames s1) 12 =
      Some (arg_file no_files (PathStr ''/a/x.12.exr''))"
    by auto
  from f m k c n f2 o st show ?thesis
    unfolding s1_def by blast
qed

text \<open>
  Claim C4 at a failing input.  The File object of \<open>/b/other.12.tif\<close> has another
  key than the example sequence \<open>/a/x.#.exr\<close>.  Passed as a File object it is
  appended and stored under frame 12, because the membership check is inside the branch
  for path strings; passed as a path string the same file is rejected.
\<close>

theorem append_file_object_skips_key_check:
  "dict_frames example_sequence \<noteq> [] \<and>
   get_seq_key example_cfg (File_init no_files ''/b/other.12.tif'' StatsNone None)
     (Some (ignore_padding example_cfg)) \<noteq> seq_name example_sequence \<and>
   fst (append example_cfg no_files example_sequence
          (FileObj (File_init no_files ''/b/other.12.tif'' StatsNone None))) = None \<and>
   map_of (dict_frames (snd (append example_cfg no_files example_sequence
          (FileObj (File_init no_files ''/b/other.12.tif'' StatsNone None))))) 12 =
     Some (File_init no_files ''/b/other.12.tif'' StatsNone None) \<and>
   fst (append example_cfg no_files example_sequence (PathStr ''/b/other.12.tif'')) =
     Some ValueError_not_member"
  by code_simp

section \<open>Padding of a sequence\<close>

lemma append_all_snoc:
  "append_all c os_stat s (xs @ [x]) =
     (case append_all c os_stat s xs of
        (Some e, s') \<Rightarrow> (Some e, s')
      | (None, s') \<Rightarrow> append c os_stat s' x)"
proof (induction xs arbitrary: s)
  case Nil
  then show ?case
    by (cases "append c os_stat s x") (auto split: option.splits)
next
  case (Cons y ys)
  then show ?case
    by (cases "append c os_stat s y") (auto split: option.splits)
qed

lemma append_first_padding:
  assumes "dict_frames s = []" and "append c os_stat s a = (None, s')"
  shows "seq_padding s' = padding (arg_file os_stat a) \<and>
         inconsistent_padding s' = inconsistent_padding s"
  using assms unfolding append_alt by (auto split: if_splits option.splits)

lemma append_later_padding:
  assumes "dict_frames s \<noteq> []" and "append c os_stat s a = (None, s')"
  shows "seq_padding s' = max (seq_padding s) (padding (arg_file os_stat a)) \<and>
         (inconsistent_padding s' \<longleftrightarrow>
            inconsistent_padding s \<or> seq_padding s < padding (arg_file os_stat a))"
  using assms unfolding append_alt by (auto split: if_splits option.splits)

lemma exceeds_snoc:
  fixes ps :: "nat list"
  assumes "ps \<noteq> []"
  shows "(\<exists>i. 0 < i \<and> i < length (ps @ [p]) \<and> Max (set (take i (ps @ [p]))) < (ps @ [p]) ! i)
         \<longleftrightarrow> (\<exists>i. 0 < i \<and> i < length ps \<and> Max (set (take i ps)) < ps ! i)
              \<or> Max (set ps) < p"
proof
  assume "\<exists>i. 0 < i \<and> i < length (ps @ [p]) \<and> Max (set (take i (ps @ [p]))) < (ps @ [p]) ! i"
  then obtain i where i: "0 < i" "i < length (ps @ [p])"
    "Max (set (take i (ps @ [p]))) < (ps @ [p]) ! i" by blast
  show "(\<exists>i. 0 < i \<and> i < length ps \<and> Max (set (take i ps)) < ps ! i) \<or> Max (set ps) < p"
  proof (cases "i < length ps")
    case True
    with i have "Max (set (take i ps)) < ps ! i" by (simp add: nth_append)
    with i(1) True show ?thesis by blast
  next
    case False
    with i(2) have "i = length ps" by simp
    with i(3) show ?thesis by simp
  qed
next
  assume "(\<exists>i. 0 < i \<and> i < length ps \<and> Max (set (take i ps)) < ps ! i) \<or> Max (set ps) < p"
  then show "\<exists>i. 0 < i \<and> i < length (ps @ [p]) \<and>
      Max (set (take i (ps @ [p]))) < (ps @ [p]) ! i"
  proof
    assume "\<exists>i. 0 < i \<and> i < length ps \<and> Max (set (take i ps)) < ps ! i"
    then obtain i where "0 < i" "i < length ps" "Max (set (take i ps)) < ps ! i" by blast
    then have "0 < i \<and> i < length (ps @ [p]) \<and>
        Max (set (take i (ps @ [p]))) < (ps @ [p]) ! i"
      by (simp add: nth_append)
    then show ?thesis by blast
  next
    assume "Max (set ps) < p"
    with assms have "0 < length ps \<and> length ps < length (ps @ [p]) \<and>
        Max (set (take (length ps) (ps @ [p]))) < (ps @ [p]) ! length ps"
      by simp
    then show ?thesis by blast
  qed
qed

lemma Max_snoc:
  fixes ps :: "nat list"
  shows "ps \<noteq> [] \<Longrightarrow> Max (set (ps @ [p])) = max (Max (set ps)) p"
  by (simp add: max.commute)

text \<open>
  The invariant of a run of successful appends to a fresh sequence: the dict is not
  empty, the stored padding is the maximum of the paddings seen, and the flag is set
  exactly when some file after the first exceeded the maximum of those before it.
\<close>

lemma append_all_padding_inv:
  "append_all c os_stat Sequence_empty (a # as) = (None, s) \<Longrightarrow>
   dict_frames s \<noteq> [] \<and>
   seq_padding s = Max (set (map (\<lambda>x. padding (arg_file os_stat x)) (a # as))) \<and>
   (inconsistent_padding s \<longleftrightarrow>
      (\<exists>i. 0 < i \<and> i < length (a # as) \<and>
           Max (set (take i (map (\<lambda>x. padding (arg_file os_stat x)) (a # as))))
             < map (\<lambda>x. padding (arg_file os_stat x)) (a # as) ! i))"
proof (induction as arbitrary: s rule: rev_induct)
  case Nil
  then have a: "append c os_stat Sequence_empty a = (None, s)"
    by (cases "append c os_stat Sequence_empty a") (auto split: option.splits)
  have e: "dict_frames Sequence_empty = []" by (simp add: Sequence_empty_def)
  from append_first_padding [OF e a] append_success_nonempty [OF a]
  show ?case by (simp add: Sequence_empty_def)
next
  case (snoc x xs)
  define ps where "ps = map (\<lambda>x. padding (arg_file os_stat x)) (a # xs)"
  have psne: "ps \<noteq> []" by (simp add: ps_def)
  have "append_all c os_stat Sequence_empty ((a # xs) @ [x]) = (None, s)"
    using snoc.prems by simp
  then obtain s1 where s1: "append_all c os_stat Sequence_empty (a # xs) = (None, s1)"
    and ap: "append c os_stat s1 x = (None, s)"
    unfolding append_all_snoc
    by (cases "append_all c os_stat Sequence_empty (a # xs)") (auto split: option.splits)
  from snoc.IH [OF s1] have ne1: "dict_frames s1 \<noteq> []"
    and p1: "seq_padding s1 = Max (set ps)"
    and f1: "inconsistent_padding s1 \<longleftrightarrow>
      (\<exists>i. 0 < i \<and> i < length ps \<and> Max (set (take i ps)) < ps ! i)"
    by (simp_all add: ps_def)
  from append_later_padding [OF ne1 ap]
  have p: "seq_padding s = max (seq_padding s1) (padding (arg_file os_stat x))"
    and f: "inconsistent_padding s \<longleftrightarrow>
      inconsistent_padding s1 \<or> seq_padding s1 < padding (arg_file os_stat x)"
    by simp_all
  have m: "map (\<lambda>x. padding (arg_file os_stat x)) (a # xs @ [x]) =
      ps @ [padding (arg_file os_stat x)]"
    by (simp add: ps_def)
  have l: "length (a # xs @ [x]) = length (ps @ [padding (arg_file os_stat x)])"
    by (simp add: ps_def)
  show ?case
    unfolding m l exceeds_snoc [OF psne] Max_snoc [OF psne]
    using append_success_nonempty [OF ap] p f p1 f1 by simp
qed


text \<open>
  Claim C5.  After any run of successful appends to a fresh sequence, the stored padding
  is the maximum of the paddings of the appended files, and \<open>inconsistent_padding\<close>
  holds exactly when some file after the first had a padding above the maximum of the
  paddings of the files before it.  After such a run, a successful append of a file
  whose padding is at most the stored padding leaves both fields as they are.
\<close>

theorem append_padding_running_max:
  "(append_all c os_stat Sequence_empty (a # as) = (None, s) \<longrightarrow>
      seq_padding s = Max (set (map (\<lambda>x. padding (arg_file os_stat x)) (a # as))) \<and>
      (inconsistent_padding s \<longleftrightarrow>
         (\<exists>i. 0 < i \<and> i < length (a # as) \<and>
              Max (set (take i (map (\<lambda>x. padding (arg_file os_stat x)) (a # as))))
                < map (\<lambda>x. padding (arg_file os_stat x)) (a # as) ! i))) \<and>
   (append_all c os_stat Sequence_empty bs = (None, t) \<and>
    append c os_stat t b = (None, t') \<and>
    padding (arg_file os_stat b) \<le> seq_padding t \<longrightarrow>
      seq_padding t' = seq_padding t \<and> inconsistent_padding t' = inconsistent_padding t)"
proof (intro conjI impI)
  assume r: "append_all c os_stat Sequence_empty (a # as) = (None, s)"
  from append_all_padding_inv [OF r]
  show "seq_padding s = Max (set (map (\<lambda>x. padding (arg_file os_stat x)) (a # as)))"
    by blast
  from append_all_padding_inv [OF r]
  show "inconsistent_padding s \<longleftrightarrow>
         (\<exists>i. 0 < i \<and> i < length (a # as) \<and>
              Max (set (take i (map (\<lambda>x. padding (arg_file os_stat x)) (a # as))))
                < map (\<lambda>x. padding (arg_file os_stat x)) (a # as) ! i)"
    by blast
next
  assume h: "append_all c os_stat Sequence_empty bs = (None, t) \<and>
    append c os_stat t b = (None, t') \<and>
    padding (arg_file os_stat b) \<le> seq_padding t"
  show "seq_padding t' = seq_padding t"
  proof (cases bs)
    case Nil
    with h have t: "t = Sequence_empty" by simp
    then have "dict_frames t = []" "seq_padding t = 0" by (simp_all add: Sequence_empty_def)
    with h append_first_padding [of t c os_stat b t'] show ?thesis by simp
  next
    case (Cons y ys)
    with h append_all_padding_inv [of c os_stat y ys t] have "dict_frames t \<noteq> []" by blast
    with h append_later_padding [of t c os_stat b t'] show ?thesis by simp
  qed
  show "inconsistent_padding t' = inconsistent_padding t"
  proof (cases bs)
    case Nil
    with h have t: "t = Sequence_empty" by simp
    then have "dict_frames t = []" by (simp add: Sequence_empty_def)
    with h append_first_padding [of t c os_stat b t'] show ?thesis by simp
  next
    case (Cons y ys)
    with h append_all_padding_inv [of c os_stat y ys t] have "dict_frames t \<noteq> []" by blast
    with h append_later_padding [of t c os_stat b t'] show ?thesis by auto
  qed
qed

lemma ex_low_high: "map (\<lambda>x. padding (arg_file no_files x))
    [PathStr ''/a/x.10.exr'', PathStr ''/a/x.011.exr'', PathStr ''/a/x.9.exr''] = [2, 3, 1]"
  by code_simp

lemma ex_low_high_ok: "fst (append_all example_cfg no_files Sequence_empty
    [PathStr ''/a/x.10.exr'', PathStr ''/a/x.011.exr'', PathStr ''/a/x.9.exr'']) = None"
  by code_simp

lemma ex_high_ok: "fst (append_all example_cfg no_files Sequence_empty
    [PathStr ''/a/x.011.exr'']) = None"
  by code_simp

lemma ex_high_low_ok: "fst (append example_cfg no_files
    (snd (append_all example_cfg no_files Sequence_empty [PathStr ''/a/x.011.exr'']))
    (PathStr ''/a/x.10.exr'')) = None"
  by code_simp

lemma ex_high_fields:
  "seq_padding (snd (append_all example_cfg no_files Sequence_empty
     [PathStr ''/a/x.011.exr''])) = 3 \<and>
   \<not> inconsistent_padding (snd (append_all example_cfg no_files Sequence_empty
     [PathStr ''/a/x.011.exr''])) \<and>
   padding (arg_file no_files (PathStr ''/a/x.10.exr'')) = 2"
  by code_simp

theorem append_padding_running_max_witness:
  "fst (append_all example_cfg no_files Sequence_empty
     [PathStr ''/a/x.10.exr'', PathStr ''/a/x.011.exr'', PathStr ''/a/x.9.exr'']) = None \<and>
   seq_padding (snd (append_all example_cfg no_files Sequence_empty
     [PathStr ''/a/x.10.exr'', PathStr ''/a/x.011.exr'', PathStr ''/a/x.9.exr''])) = 3 \<and>
   inconsistent_padding (snd (append_all example_cfg no_files Sequence_empty
     [PathStr ''/a/x.10.exr'', PathStr ''/a/x.011.exr'', PathStr ''/a/x.9.exr''])) \<and>
   fst (append example_cfg no_files
     (snd (append_all example_cfg no_files Sequence_empty [PathStr ''/a/x.011.exr'']))
     (PathStr ''/a/x.10.exr'')) = None \<and>
   seq_padding (snd (append example_cfg no_files
     (snd (append_all example_cfg no_files Sequence_empty [PathStr ''/a/x.011.exr'']))
     (PathStr ''/a/x.10.exr''))) = 3 \<and>
   \<not> inconsistent_padding (snd (append example_cfg no_files
     (snd (append_all example_cfg no_files Sequence_empty [PathStr ''/a/x.011.exr'']))
     (PathStr ''/a/x.10.exr'')))"
proof -
  define L where "L = [PathStr ''/a/x.011.exr'', PathStr ''/a/x.9.exr'']"
  define s where "s = snd (append_all example_cfg no_files Sequence_empty
     (PathStr ''/a/x.10.exr'' # L))"
  define t where "t = snd (append_all example_cfg no_files Sequence_empty
     [PathStr ''/a/x.011.exr''])"
  define t' where "t' = snd (append example_cfg no_files t (PathStr ''/a/x.10.exr''))"
  have ok: "fst (append_all example_cfg no_files Sequence_empty
     (PathStr ''/a/x.10.exr'' # L)) = None"
    unfolding L_def by (rule ex_low_high_ok)
  then have r: "append_all example_cfg no_files Sequence_empty
     (PathStr ''/a/x.10.exr'' # L) = (None, s)"
    by (simp add: s_def prod_eq_iff)
  have rt: "append_all example_cfg no_files Sequence_empty [PathStr ''/a/x.011.exr''] = (None, t)"
    using ex_high_ok by (simp add: t_def prod_eq_iff)
  have okt: "fst (append example_cfg no_files t (PathStr ''/a/x.10.exr'')) = None"
    unfolding t_def by (rule ex_high_low_ok)
  then have rt': "append example_cfg no_files t (PathStr ''/a/x.10.exr'') = (None, t')"
    by (simp add: t'_def prod_eq_iff)
  have tf: "seq_padding t = 3" "\<not> inconsistent_padding t"
    "padding (arg_file no_files (PathStr ''/a/x.10.exr'')) = 2"
    unfolding t_def using ex_high_fields by blast+
  note th = append_padding_running_max
    [of example_cfg no_files "PathStr ''/a/x.10.exr''" L s
        "[PathStr ''/a/x.011.exr'']" t "PathStr ''/a/x.10.exr''" t']
  have m: "map (\<lambda>x. padding (arg_file no_files x)) (PathStr ''/a/x.10.exr'' # L) = [2, 3, 1]"
    unfolding L_def by (rule ex_low_high)
  from th r have p: "seq_padding s = Max (set [2, 3, 1::nat])"
    unfolding m by blast
  have e: "\<exists>i. 0 < i \<and> i < length (PathStr ''/a/x.10.exr'' # L) \<and>
      Max (set (take i [2, 3, 1::nat])) < [2, 3, 1] ! i"
    by (rule exI [of _ 1]) (simp add: L_def)
  from th r e have f: "inconsistent_padding s"
    unfolding m by blast
  from th rt rt' tf have u: "seq_padding t' = seq_padding t \<and>
      inconsistent_padding t' = inconsistent_padding t"
    by simp
  from ok p f okt u tf show ?thesis
    unfolding s_def t_def t'_def L_def by simp
qed

section \<open>File construction and stat accessors\<close>

lemma File_init_tail:
  "tail (File_init os_stat filepath stats gs) =
     (if ext (File_init os_stat filepath stats gs) = [] then []
      else snd (snd (extract_frame (base (File_init os_stat filepath stats gs))))
           @ ''.'' @ ext (File_init os_stat filepath stats gs))"
  by (simp add: File_init_def Let_def split: prod.splits)

text \<open>
  Claim C6 at a failing input.  The name \<open>shot0001final\<close> has no dot, so its
  extension is empty; the extractor returns the tail \<open>final\<close>, but the File's tail
  is the empty string (line 145), and the text after the frame number is lost.
\<close>

theorem File_init_drops_tail_without_extension:
  "split_extension ''shot0001final'' = (''shot0001final'', []) \<and>
   extract_frame ''shot0001final'' = (''shot'', ''0001'', ''final'') \<and>
   ext (File_init no_files ''shot0001final'' StatsNone None) = [] \<and>
   tail (File_init no_files ''shot0001final'' StatsNone None) = [] \<and>
   tail (File_init no_files ''shot0001final.exr'' StatsNone None) = ''final.exr''"
  by code_simp

text \<open>
  Claim C7 at a failing input.  The File is given a stat snapshot whose size is zero.
  Reading \<open>size\<close> treats the zero as missing and asks the file system: when the path
  does not exist the accessor returns \<open>None\<close>, and when it exists the size on disk
  replaces the supplied zero.
\<close>

theorem File_size_zero_is_treated_as_absent:
  "st_size (stat zero_size_file) = Some 0 \<and>
   fst (File_size no_files zero_size_file) = Inr None \<and>
   fst (File_size disk_with_file zero_size_file) = Inr (Some 42) \<and>
   st_size (stat (snd (File_size disk_with_file zero_size_file))) = Some 42"
  by code_simp

end
